theory Spec2Isabelle
  imports Main "HOL-Library.Word"
begin

unbundle bit_operations_syntax

section \<open>Memory-mapped machine state\<close>

text \<open>
  The program of \<^verbatim>\<open>vitis-example.c\<close> talks to its peripheral through fixed addresses.
  The type \<^verbatim>\<open>unsigned __int128\<close> exists only on targets with 64-bit pointers, so an
  address is a 64-bit word. Memory is byte addressed and little endian; \<^verbatim>\<open>int\<close> is
  32 bits wide, \<^verbatim>\<open>unsigned int\<close> is 32 bits wide, \<^verbatim>\<open>uint128_t\<close> is 128 bits wide.
  Statements run in program order (the semantics of the C abstract machine), and the
  memory of the model is the memory that semantics yields.

  Of the accesses, only those through a \<^verbatim>\<open>volatile\<close> lvalue are observable behaviour:
  they are performed as written and in order, and they are recorded in a trace. In the
  source only \<^verbatim>\<open>bram_ptr\<close> is volatile. A store through the plain \<^verbatim>\<open>(int *)\<close> casts
  changes memory but is no observable access: a compiler may merge it with a later store
  to the same place or move it across a volatile access, so it is not in the trace.
\<close>

type_synonym addr = "64 word"
type_synonym byte = "8 word"
type_synonym uint128_t = "128 word"
type_synonym memory = "addr \<Rightarrow> byte"

datatype event =
    Store128 addr uint128_t
  | Load128 addr

record machine =
  mem :: memory
  trace :: "event list"

subsection \<open>Bytes of a value\<close>

definition to_bytes :: "nat \<Rightarrow> 'a::len word \<Rightarrow> byte list" where
  "to_bytes n w = map (\<lambda>k. ucast (drop_bit (8 * k) w)) [0..<n]"

definition from_bytes :: "byte list \<Rightarrow> 'a::len word" where
  "from_bytes bs = word_of_int (horner_sum uint 256 bs)"

definition write_bytes :: "memory \<Rightarrow> addr \<Rightarrow> byte list \<Rightarrow> memory" where
  "write_bytes m a bs =
     (\<lambda>x. if unat (x - a) < length bs then bs ! unat (x - a) else m x)"

definition read_bytes :: "memory \<Rightarrow> addr \<Rightarrow> nat \<Rightarrow> byte list" where
  "read_bytes m a n = map (\<lambda>k. m (a + of_nat k)) [0..<n]"

subsection \<open>Typed accesses\<close>

text \<open>\<^verbatim>\<open>*((int *)a) = v\<close>: a 32-bit store through a plain pointer. It is not volatile.\<close>

definition store32 :: "addr \<Rightarrow> 32 word \<Rightarrow> machine \<Rightarrow> machine" where
  "store32 a v s = s\<lparr>mem := write_bytes (mem s) a (to_bytes 4 v)\<rparr>"

text \<open>\<^verbatim>\<open>*((int *)a)\<close> as an rvalue: a 32-bit load (used to observe registers).\<close>

definition peek32 :: "memory \<Rightarrow> addr \<Rightarrow> 32 word" where
  "peek32 m a = from_bytes (read_bytes m a 4)"

definition peek128 :: "memory \<Rightarrow> addr \<Rightarrow> uint128_t" where
  "peek128 m a = from_bytes (read_bytes m a 16)"

text \<open>\<^verbatim>\<open>p[i] = v\<close> and \<^verbatim>\<open>p[i]\<close> through a \<^verbatim>\<open>volatile uint128_t *\<close>.\<close>

definition store128 :: "addr \<Rightarrow> uint128_t \<Rightarrow> machine \<Rightarrow> machine" where
  "store128 a v s =
     s\<lparr>mem := write_bytes (mem s) a (to_bytes 16 v), trace := trace s @ [Store128 a v]\<rparr>"

definition load128 :: "addr \<Rightarrow> machine \<Rightarrow> uint128_t \<times> machine" where
  "load128 a s = (peek128 (mem s) a, s\<lparr>trace := trace s @ [Load128 a]\<rparr>)"

text \<open>
  Pointer arithmetic \<^verbatim>\<open>&p[i]\<close> for \<^verbatim>\<open>uint128_t *p\<close> and \<^verbatim>\<open>unsigned int i\<close>:
  the index is zero-extended to the pointer width and scaled by
  \<^verbatim>\<open>sizeof(uint128_t) = 16\<close>.
\<close>

definition index128 :: "addr \<Rightarrow> 32 word \<Rightarrow> addr" where
  "index128 p i = p + 16 * ucast i"

section \<open>The program\<close>

definition SLV_REG0 :: addr where "SLV_REG0 = 0xA0000000"
definition SLV_REG1 :: addr where "SLV_REG1 = SLV_REG0 + 4"
definition SLV_REG2 :: addr where "SLV_REG2 = SLV_REG0 + 8"
definition SLV_REG3 :: addr where "SLV_REG3 = SLV_REG0 + 12"

definition BRAM_BASE :: addr where "BRAM_BASE = 0xB0000000"

definition bram_write :: "uint128_t \<Rightarrow> 32 word \<Rightarrow> machine \<Rightarrow> machine" where
  "bram_write val bram_addr s =
     (let bram_ptr = BRAM_BASE;
          s1 = store32 SLV_REG3 1 s;
          s2 = store128 (index128 bram_ptr bram_addr) val s1;
          s3 = store32 SLV_REG3 0 s2
      in s3)"

definition bram_read :: "32 word \<Rightarrow> machine \<Rightarrow> uint128_t \<times> machine" where
  "bram_read bram_addr s =
     (let bram_ptr = BRAM_BASE;
          s1 = store32 SLV_REG3 1 s;
          (val, s2) = load128 (index128 bram_ptr bram_addr) s1;
          s3 = store32 SLV_REG3 0 s2
      in (val, s3))"

definition createUint128_t :: "64 word \<Rightarrow> 64 word \<Rightarrow> uint128_t" where
  "createUint128_t high low = push_bit 64 (ucast high) OR ucast low"

section \<open>Observing a call\<close>

text \<open>The observable accesses of a call: what it appended to the trace.\<close>

definition emitted :: "machine \<Rightarrow> machine \<Rightarrow> event list" where
  "emitted s s' = drop (length (trace s)) (trace s')"

text \<open>The bytes an access covers: its address and its size.\<close>

fun footprint :: "event \<Rightarrow> addr \<times> nat" where
  "footprint (Store128 a v) = (a, 16)"
| "footprint (Load128 a) = (a, 16)"

definition within :: "addr \<Rightarrow> nat \<Rightarrow> addr \<Rightarrow> bool" where
  "within a n x = (unat (x - a) < n)"

definition touches :: "event \<Rightarrow> addr \<Rightarrow> nat \<Rightarrow> bool" where
  "touches e b k =
     (case footprint e of (a, n) \<Rightarrow> list_ex (\<lambda>j. within a n (b + of_nat j)) [0..<k])"

text \<open>The observable accesses that reach the four bytes of the enable register \<^verbatim>\<open>SLV_REG3\<close>.\<close>

definition enable_accesses :: "event list \<Rightarrow> event list" where
  "enable_accesses tr = filter (\<lambda>e. touches e SLV_REG3 4) tr"

section \<open>Bytes, words and disjoint regions\<close>

lemma length_to_bytes: "length (to_bytes n w) = n"
  by (simp add: to_bytes_def)

lemma nth_to_bytes: "k < n \<Longrightarrow> to_bytes n w ! k = ucast (drop_bit (8 * k) w)"
  by (simp add: to_bytes_def)

lemma bit_from_bytes:
  "bit (from_bytes bs :: 'a::len word) k \<longleftrightarrow>
     k < LENGTH('a) \<and> k div 8 < length bs \<and> bit (bs ! (k div 8)) (k mod 8)"
proof -
  have "bit (horner_sum uint (2 ^ LENGTH(8)) bs) k \<longleftrightarrow>
          k div LENGTH(8) < length bs \<and> bit (bs ! (k div LENGTH(8))) (k mod LENGTH(8))"
    by (rule bit_horner_sum_uint_exp_iff)
  then have "bit (horner_sum uint 256 bs) k \<longleftrightarrow>
          k div 8 < length bs \<and> bit (bs ! (k div 8)) (k mod 8)"
    by simp
  then show ?thesis
    by (simp add: from_bytes_def bit_word_of_int_iff)
qed

text \<open>Splitting a value into enough bytes and reassembling them loses nothing.\<close>

lemma from_to_bytes:
  fixes w :: "'a::len word"
  assumes "LENGTH('a) \<le> 8 * n"
  shows "from_bytes (to_bytes n w) = w"
proof (rule bit_word_eqI)
  fix k assume k: "k < LENGTH('a)"
  have d: "k div 8 < n"
    using k assms by (simp add: less_mult_imp_div_less mult.commute)
  have "bit (from_bytes (to_bytes n w) :: 'a word) k
        \<longleftrightarrow> bit (to_bytes n w ! (k div 8)) (k mod 8)"
    using k d by (simp add: bit_from_bytes length_to_bytes)
  also have "\<dots> \<longleftrightarrow> bit w (8 * (k div 8) + k mod 8)"
    using d by (simp add: nth_to_bytes bit_ucast_iff bit_drop_bit_eq)
  also have "8 * (k div 8) + k mod 8 = k" by simp
  finally show "bit (from_bytes (to_bytes n w) :: 'a word) k = bit w k" .
qed

lemma write_bytes_inside:
  assumes "unat a \<le> unat x" "unat x < unat a + length bs"
  shows "write_bytes m a bs x = bs ! (unat x - unat a)"
proof -
  have "unat (x - a) = unat x - unat a"
    using assms(1) by (simp add: unat_sub_if')
  moreover have "unat x - unat a < length bs"
    using assms by arith
  ultimately show ?thesis by (simp add: write_bytes_def)
qed

lemma write_bytes_outside:
  assumes "unat a + length bs \<le> 2 ^ 64"
    and "unat x < unat a \<or> unat a + length bs \<le> unat x"
  shows "write_bytes m a bs x = m x"
proof -
  have "\<not> unat (x - a) < length bs"
  proof (cases "unat x < unat a")
    case True
    then have "unat (x - a) = unat x + 2 ^ 64 - unat a"
      by (simp add: unat_sub_if')
    then show ?thesis using assms(1) True by arith
  next
    case False
    then have "unat (x - a) = unat x - unat a"
      by (simp add: unat_sub_if')
    then show ?thesis using assms(2) False by arith
  qed
  then show ?thesis by (simp add: write_bytes_def)
qed

lemma unat_of_nat64: "n < 18446744073709551616 \<Longrightarrow> unat (of_nat n :: 64 word) = n"
  by (simp add: unat_of_nat)

lemma unat_add_of_nat:
  assumes "unat (b :: addr) + k < 2 ^ 64"
  shows "unat (b + of_nat k) = unat b + k"
proof -
  have k: "k < 18446744073709551616" using assms by simp
  have "unat b + unat (of_nat k :: addr) < 2 ^ LENGTH(64)"
    using assms k by (simp add: unat_of_nat64)
  then have "unat (b + of_nat k) = unat b + unat (of_nat k :: addr)"
    by (simp only: unat_add_lem)
  then show ?thesis using k by (simp add: unat_of_nat64)
qed

lemma read_bytes_write_bytes_same:
  assumes "unat a + length bs \<le> 2 ^ 64"
  shows "read_bytes (write_bytes m a bs) a (length bs) = bs"
proof (rule nth_equalityI)
  show "length (read_bytes (write_bytes m a bs) a (length bs)) = length bs"
    by (simp add: read_bytes_def)
next
  fix k assume "k < length (read_bytes (write_bytes m a bs) a (length bs))"
  then have k: "k < length bs" by (simp add: read_bytes_def)
  then have u: "unat (a + of_nat k) = unat a + k"
    using assms by (intro unat_add_of_nat) simp
  have "write_bytes m a bs (a + of_nat k) = bs ! (unat (a + of_nat k) - unat a)"
    using k u by (intro write_bytes_inside) simp_all
  then show "read_bytes (write_bytes m a bs) a (length bs) ! k = bs ! k"
    using k u by (simp add: read_bytes_def)
qed

lemma read_bytes_write_bytes_disjoint:
  assumes "unat a + length bs \<le> 2 ^ 64" and "unat b + n \<le> 2 ^ 64"
    and "unat b + n \<le> unat a \<or> unat a + length bs \<le> unat b"
  shows "read_bytes (write_bytes m a bs) b n = read_bytes m b n"
proof -
  have "write_bytes m a bs (b + of_nat k) = m (b + of_nat k)" if "k < n" for k
  proof -
    have u: "unat (b + of_nat k) = unat b + k"
      using assms(2) that by (intro unat_add_of_nat) simp
    show ?thesis
      using assms(1,3) that u by (intro write_bytes_outside) auto
  qed
  then show ?thesis by (simp add: read_bytes_def)
qed

lemma peek128_write_same:
  assumes "unat a + 16 \<le> 2 ^ 64"
  shows "peek128 (write_bytes m a (to_bytes 16 v)) a = v"
proof -
  have "read_bytes (write_bytes m a (to_bytes 16 v)) a (length (to_bytes 16 v)) = to_bytes 16 v"
    using assms by (intro read_bytes_write_bytes_same) (simp add: length_to_bytes)
  then show ?thesis
    by (simp add: peek128_def length_to_bytes from_to_bytes)
qed

lemma peek32_write_same:
  assumes "unat a + 4 \<le> 2 ^ 64"
  shows "peek32 (write_bytes m a (to_bytes 4 v)) a = v"
proof -
  have "read_bytes (write_bytes m a (to_bytes 4 v)) a (length (to_bytes 4 v)) = to_bytes 4 v"
    using assms by (intro read_bytes_write_bytes_same) (simp add: length_to_bytes)
  then show ?thesis
    by (simp add: peek32_def length_to_bytes from_to_bytes)
qed

lemma peek128_write_disjoint:
  assumes "unat a + n \<le> 2 ^ 64" and "unat b + 16 \<le> 2 ^ 64"
    and "unat b + 16 \<le> unat a \<or> unat a + n \<le> unat b"
  shows "peek128 (write_bytes m a (to_bytes n v)) b = peek128 m b"
  using assms by (simp add: peek128_def read_bytes_write_bytes_disjoint length_to_bytes)

lemma peek32_write_disjoint:
  assumes "unat a + n \<le> 2 ^ 64" and "unat b + 4 \<le> 2 ^ 64"
    and "unat b + 4 \<le> unat a \<or> unat a + n \<le> unat b"
  shows "peek32 (write_bytes m a (to_bytes n v)) b = peek32 m b"
  using assms by (simp add: peek32_def read_bytes_write_bytes_disjoint length_to_bytes)

subsection \<open>Addresses of the program\<close>

lemma unat_bound32: "unat (i :: 32 word) < 4294967296"
  using unsigned_less [of i, where 'a = nat] by simp

lemma index128_of_nat: "index128 BRAM_BASE i = of_nat (2952790016 + 16 * unat i)"
  by (simp add: index128_def BRAM_BASE_def)

lemma unat_index128: "unat (index128 BRAM_BASE i) = 2952790016 + 16 * unat i"
proof -
  have "2952790016 + 16 * unat i < 18446744073709551616"
    using unat_bound32 [of i] by arith
  then show ?thesis
    by (simp only: index128_of_nat unat_of_nat64)
qed

lemma unat_SLV_REG0: "unat SLV_REG0 = 2684354560"
  by (simp add: SLV_REG0_def)

lemma unat_SLV_REG1: "unat SLV_REG1 = 2684354564"
  by (simp add: SLV_REG1_def SLV_REG0_def)

lemma unat_SLV_REG2: "unat SLV_REG2 = 2684354568"
  by (simp add: SLV_REG2_def SLV_REG0_def)

lemma unat_SLV_REG3: "unat SLV_REG3 = 2684354572"
  by (simp add: SLV_REG3_def SLV_REG0_def)

lemmas unat_regs = unat_SLV_REG0 unat_SLV_REG1 unat_SLV_REG2 unat_SLV_REG3

subsection \<open>What the two accessors do to memory and to the trace\<close>

lemma mem_bram_write:
  "mem (bram_write v i s) =
     write_bytes (write_bytes (write_bytes (mem s) SLV_REG3 (to_bytes 4 (1 :: 32 word)))
       (index128 BRAM_BASE i) (to_bytes 16 v)) SLV_REG3 (to_bytes 4 (0 :: 32 word))"
  by (simp add: bram_write_def store32_def store128_def Let_def)

lemma mem_bram_read:
  "mem (snd (bram_read i s)) =
     write_bytes (write_bytes (mem s) SLV_REG3 (to_bytes 4 (1 :: 32 word)))
       SLV_REG3 (to_bytes 4 (0 :: 32 word))"
  by (simp add: bram_read_def store32_def load128_def Let_def)

lemma fst_bram_read:
  "fst (bram_read i s) =
     peek128 (write_bytes (mem s) SLV_REG3 (to_bytes 4 (1 :: 32 word))) (index128 BRAM_BASE i)"
  by (simp add: bram_read_def store32_def load128_def Let_def)

lemma trace_bram_write:
  "trace (bram_write v i s) =
     trace s @ [Store128 (index128 BRAM_BASE i) v]"
  by (simp add: bram_write_def store32_def store128_def Let_def)

lemma trace_bram_read:
  "trace (snd (bram_read i s)) =
     trace s @ [Load128 (index128 BRAM_BASE i)]"
  by (simp add: bram_read_def store32_def load128_def Let_def)

lemma peek128_slot_enable:
  "peek128 (write_bytes m SLV_REG3 (to_bytes 4 (e :: 32 word))) (index128 BRAM_BASE i)
     = peek128 m (index128 BRAM_BASE i)"
  using unat_bound32 [of i]
  by (intro peek128_write_disjoint) (simp_all add: unat_index128 unat_SLV_REG3)

subsection \<open>The 128-bit constructor, bit by bit\<close>

lemma unat_bound64: "unat (w :: 64 word) < 18446744073709551616"
  using unsigned_less [of w, where 'a = nat] by simp

lemma bit_createUint128_t:
  "bit (createUint128_t high low) n \<longleftrightarrow> (if n < 64 then bit low n else bit high (n - 64))"
  by (auto simp add: createUint128_t_def bit_or_iff bit_push_bit_iff bit_ucast_iff
      dest: bit_imp_le_length)

lemma high_createUint128_t: "ucast (drop_bit 64 (createUint128_t high low)) = high"
  by (rule bit_word_eqI) (simp add: bit_ucast_iff bit_drop_bit_eq bit_createUint128_t)

lemma low_createUint128_t: "ucast (createUint128_t high low) = low"
  by (rule bit_word_eqI) (simp add: bit_ucast_iff bit_createUint128_t)

lemma createUint128_t_or_nat:
  "unat (createUint128_t high low) = push_bit 64 (unat high) OR unat low"
  apply (rule bit_eqI)
  apply (auto simp add: bit_unsigned_iff bit_createUint128_t bit_or_iff bit_push_bit_iff  dest: bit_imp_le_length)
  done

lemma createUint128_t_sum:
  "unat (createUint128_t high low) = unat high * 2 ^ 64 + unat low"
proof -
  have "push_bit 64 (unat high) AND unat low = 0"
    by (rule bit_eqI) (auto simp add: bit_and_iff bit_push_bit_iff bit_unsigned_iff dest: bit_imp_le_length)
  then have "push_bit 64 (unat high) + unat low = push_bit 64 (unat high) OR unat low"
    by (rule disjunctive_add_eq_or)
  then show ?thesis
    by (simp add: createUint128_t_or_nat push_bit_eq_mult)
qed

lemma createUint128_t_1_2: "createUint128_t 1 2 = 18446744073709551618"
  by (simp add: createUint128_t_def)

subsection \<open>Regions and the trace of a call\<close>

lemma within_iff:
  assumes "unat a + n \<le> 2 ^ 64"
  shows "within a n x \<longleftrightarrow> unat a \<le> unat x \<and> unat x < unat a + n"
proof (cases "unat x < unat a")
  case True
  then have "unat (x - a) = unat x + 2 ^ 64 - unat a"
    by (simp add: unat_sub_if')
  then show ?thesis using assms True by (simp add: within_def)
next
  case False
  then have "unat (x - a) = unat x - unat a"
    by (simp add: unat_sub_if')
  then show ?thesis using False by (auto simp add: within_def)
qed

lemma write_bytes_within: "\<not> within a (length bs) x \<Longrightarrow> write_bytes m a bs x = m x"
  by (simp add: write_bytes_def within_def)

lemma slot_misses_enable:
  "\<not> touches (Store128 (index128 BRAM_BASE i) v) SLV_REG3 4"
  "\<not> touches (Load128 (index128 BRAM_BASE i)) SLV_REG3 4"
proof -
  have b: "unat (index128 BRAM_BASE i) + 16 \<le> 2 ^ 64"
    using unat_bound32 [of i] by (simp add: unat_index128)
  have "\<not> within (index128 BRAM_BASE i) 16 (SLV_REG3 + of_nat j)" if "j < 4" for j
  proof -
    have "unat (SLV_REG3 + of_nat j) = unat SLV_REG3 + j"
      using that by (intro unat_add_of_nat) (simp add: unat_SLV_REG3)
    then show ?thesis
      using that by (simp add: within_iff [OF b] unat_index128 unat_SLV_REG3)
  qed
  then show "\<not> touches (Store128 (index128 BRAM_BASE i) v) SLV_REG3 4"
    and "\<not> touches (Load128 (index128 BRAM_BASE i)) SLV_REG3 4"
    by (simp_all add: touches_def list_ex_iff)
qed

lemma emitted_bram_write:
  "emitted s (bram_write v i s) = [Store128 (index128 BRAM_BASE i) v]"
  by (simp add: emitted_def trace_bram_write)

lemma emitted_bram_read:
  "emitted s (snd (bram_read i s)) = [Load128 (index128 BRAM_BASE i)]"
  by (simp add: emitted_def trace_bram_read)

lemma enable_accesses_bram_write: "enable_accesses (emitted s (bram_write v i s)) = []"
  by (simp add: enable_accesses_def emitted_bram_write slot_misses_enable)

lemma enable_accesses_bram_read: "enable_accesses (emitted s (snd (bram_read i s))) = []"
  by (simp add: enable_accesses_def emitted_bram_read slot_misses_enable)

subsection \<open>Frames and values of the two accessors\<close>

lemma slot_fits: "unat (index128 BRAM_BASE i) + 16 \<le> 2 ^ 64"
  using unat_bound32 [of i] by (simp add: unat_index128)

lemma unat_BRAM_BASE: "unat BRAM_BASE = 2952790016"
  by (simp add: BRAM_BASE_def)

lemma slot_address_nat: "index128 BRAM_BASE i = of_nat (unat BRAM_BASE + unat i * 16)"
  by (simp only: index128_of_nat unat_BRAM_BASE mult.commute)

lemma peek32_low_register_write:
  assumes "unat b + 4 \<le> unat SLV_REG3"
  shows "peek32 (mem (bram_write v i s)) b = peek32 (mem s) b"
proof -
  have b: "unat b + 4 \<le> 2684354572" using assms by (simp add: unat_SLV_REG3)
  have e: "peek32 (write_bytes m SLV_REG3 (to_bytes 4 (w :: 32 word))) b = peek32 m b" for m w
    using b by (intro peek32_write_disjoint) (simp_all add: unat_SLV_REG3)
  have d: "peek32 (write_bytes m (index128 BRAM_BASE i) (to_bytes 16 v)) b = peek32 m b" for m
    using b unat_bound32 [of i] by (intro peek32_write_disjoint) (simp_all add: unat_index128)
  show ?thesis by (simp add: mem_bram_write e d)
qed

lemma peek32_low_register_read:
  assumes "unat b + 4 \<le> unat SLV_REG3"
  shows "peek32 (mem (snd (bram_read i s))) b = peek32 (mem s) b"
proof -
  have b: "unat b + 4 \<le> 2684354572" using assms by (simp add: unat_SLV_REG3)
  have e: "peek32 (write_bytes m SLV_REG3 (to_bytes 4 (w :: 32 word))) b = peek32 m b" for m w
    using b by (intro peek32_write_disjoint) (simp_all add: unat_SLV_REG3)
  show ?thesis by (simp add: mem_bram_read e)
qed

lemma bram_write_frame:
  "mem (bram_write v i s) x = mem s x \<or> within SLV_REG3 4 x \<or> within (index128 BRAM_BASE i) 16 x"
  by (simp add: mem_bram_write write_bytes_def within_def length_to_bytes)

lemma bram_read_frame:
  "mem (snd (bram_read i s)) x = mem s x \<or> within SLV_REG3 4 x"
  by (simp add: mem_bram_read write_bytes_def within_def length_to_bytes)

lemma peek128_after_write:
  "peek128 (mem (bram_write v i s)) (index128 BRAM_BASE i) = v"
proof -
  have "peek128 (write_bytes m (index128 BRAM_BASE i) (to_bytes 16 v)) (index128 BRAM_BASE i) = v"
    for m
    by (intro peek128_write_same slot_fits)
  then show ?thesis
    by (simp add: mem_bram_write peek128_slot_enable)
qed

lemma bram_read_value: "fst (bram_read i s) = peek128 (mem s) (index128 BRAM_BASE i)"
  by (simp add: fst_bram_read peek128_slot_enable)







section \<open>Properties of the guarded BRAM accessor\<close>

text \<open>
  C1. A \<^verbatim>\<open>bram_write\<close> of a value \<open>v\<close> at an index \<open>i\<close> followed at once by a
  \<^verbatim>\<open>bram_read\<close> at the same index returns \<open>v\<close>, for every 128-bit value, every
  index and every state of registers and memory.
\<close>

theorem bram_round_trip: "fst (bram_read i (bram_write v i s)) = v"
proof -
  have "unat (index128 BRAM_BASE i) + 16 \<le> 2 ^ 64"
    using unat_bound32 [of i] by (simp add: unat_index128)
  then show ?thesis
    by (simp add: fst_bram_read mem_bram_write peek128_slot_enable peek128_write_same)
qed

text \<open>
  C2. \<^verbatim>\<open>createUint128_t high low\<close> is the 128-bit number whose upper 64 bits are
  \<open>high\<close> and whose lower 64 bits are \<open>low\<close>: as an unbounded integer it is
  \<open>(high << 64) | low\<close>, that is \<open>high * 2^64 + low\<close>, nothing of \<open>high\<close> is shifted
  out, and both halves are recovered from the result. For \<open>high = 1\<close> and \<open>low = 2\<close>
  the result is \<open>(1 << 64) | 2 = 18446744073709551618\<close>.
\<close>

theorem createUint128_t_concatenates:
  "unat (createUint128_t high low) = push_bit 64 (unat high) OR unat low
   \<and> unat (createUint128_t high low) = unat high * 2 ^ 64 + unat low
   \<and> ucast (drop_bit 64 (createUint128_t high low)) = high
   \<and> ucast (createUint128_t high low) = low
   \<and> createUint128_t 1 2 = push_bit 64 1 OR 2
   \<and> unat (createUint128_t 1 2) = 18446744073709551618"
  using createUint128_t_or_nat [of high low] createUint128_t_sum [of high low]
    high_createUint128_t [of high low] low_createUint128_t [of high low]
  by (simp add: createUint128_t_1_2)


text \<open>
  C4. Neither \<^verbatim>\<open>bram_write\<close> nor \<^verbatim>\<open>bram_read\<close> changes the control registers
  \<^verbatim>\<open>SLV_REG0\<close>, \<^verbatim>\<open>SLV_REG1\<close> and \<^verbatim>\<open>SLV_REG2\<close>, whatever the value and the index.
  A byte of memory that differs after \<^verbatim>\<open>bram_write\<close> lies in \<^verbatim>\<open>SLV_REG3\<close> or in
  the addressed BRAM slot; one that differs after \<^verbatim>\<open>bram_read\<close> lies in \<^verbatim>\<open>SLV_REG3\<close>.
\<close>

theorem control_registers_preserved:
  "peek32 (mem (bram_write v i s)) SLV_REG0 = peek32 (mem s) SLV_REG0
   \<and> peek32 (mem (bram_write v i s)) SLV_REG1 = peek32 (mem s) SLV_REG1
   \<and> peek32 (mem (bram_write v i s)) SLV_REG2 = peek32 (mem s) SLV_REG2
   \<and> peek32 (mem (snd (bram_read i s))) SLV_REG0 = peek32 (mem s) SLV_REG0
   \<and> peek32 (mem (snd (bram_read i s))) SLV_REG1 = peek32 (mem s) SLV_REG1
   \<and> peek32 (mem (snd (bram_read i s))) SLV_REG2 = peek32 (mem s) SLV_REG2
   \<and> (mem (bram_write v i s) x = mem s x
        \<or> within SLV_REG3 4 x \<or> within (index128 BRAM_BASE i) 16 x)
   \<and> (mem (snd (bram_read i s)) x = mem s x \<or> within SLV_REG3 4 x)"
  using bram_write_frame [of v i s x] bram_read_frame [of i s x]
  by (simp add: peek32_low_register_write peek32_low_register_read unat_regs)

text \<open>
  C5. The slot of index \<open>i\<close> is at the address \<^verbatim>\<open>BRAM_BASE\<close> + \<open>i\<close> * 16, computed
  without wrap-around: \<^verbatim>\<open>bram_write\<close> stores the value there, where it is found
  afterwards, and \<^verbatim>\<open>bram_read\<close> loads from there and returns the 128-bit value that
  memory holds at that address.
\<close>

theorem bram_slot_address:
  "unat (of_nat (unat BRAM_BASE + unat i * 16) :: addr) = unat BRAM_BASE + unat i * 16
   \<and> emitted s (bram_write v i s) = [Store128 (of_nat (unat BRAM_BASE + unat i * 16)) v]
   \<and> peek128 (mem (bram_write v i s)) (of_nat (unat BRAM_BASE + unat i * 16)) = v
   \<and> emitted s (snd (bram_read i s)) = [Load128 (of_nat (unat BRAM_BASE + unat i * 16))]
   \<and> fst (bram_read i s) = peek128 (mem s) (of_nat (unat BRAM_BASE + unat i * 16))"
proof -
  have "unat (index128 BRAM_BASE i) = unat BRAM_BASE + unat i * 16"
    by (simp add: unat_index128 unat_BRAM_BASE)
  moreover have "of_nat (unat BRAM_BASE + unat i * 16) = index128 BRAM_BASE i"
    by (rule slot_address_nat [symmetric])
  ultimately show ?thesis
    by (simp only: peek128_after_write bram_read_value emitted_bram_write emitted_bram_read)
qed



text \<open>
  C8. The value \<^verbatim>\<open>bram_read\<close> returns, and the memory it leaves, depend on the
  memory-mapped state and on the index only: two calls at the same index from states
  with the same memory agree, whatever accesses were made before (the traces of the
  two states may differ).
\<close>

theorem bram_read_history_independent:
  "mem s = mem s' \<Longrightarrow>
     fst (bram_read i s) = fst (bram_read i s')
     \<and> mem (snd (bram_read i s)) = mem (snd (bram_read i s'))"
  by (simp add: fst_bram_read mem_bram_read)

theorem bram_read_history_independent_witness:
  "mem \<lparr>mem = (\<lambda>x. 7), trace = []\<rparr> = mem \<lparr>mem = (\<lambda>x. 7), trace = [Load128 BRAM_BASE, Store128 BRAM_BASE 42]\<rparr>
   \<and> trace \<lparr>mem = (\<lambda>x. 7), trace = []\<rparr> \<noteq> trace \<lparr>mem = (\<lambda>x. 7), trace = [Load128 BRAM_BASE, Store128 BRAM_BASE 42]\<rparr>
   \<and> fst (bram_read 3 \<lparr>mem = (\<lambda>x. 7), trace = []\<rparr>)
       = fst (bram_read 3 \<lparr>mem = (\<lambda>x. 7), trace = [Load128 BRAM_BASE, Store128 BRAM_BASE 42]\<rparr>)
   \<and> mem (snd (bram_read 3 \<lparr>mem = (\<lambda>x. 7), trace = []\<rparr>))
       = mem (snd (bram_read 3 \<lparr>mem = (\<lambda>x. 7), trace = [Load128 BRAM_BASE, Store128 BRAM_BASE 42]\<rparr>))"
  using bram_read_history_independent
    [of "\<lparr>mem = (\<lambda>x. 7), trace = []\<rparr>"
        "\<lparr>mem = (\<lambda>x. 7), trace = [Load128 BRAM_BASE, Store128 BRAM_BASE 42]\<rparr>" 3]
  by simp

text \<open>
  C9. After a call of \<^verbatim>\<open>bram_write\<close> and after a call of \<^verbatim>\<open>bram_read\<close> the enable
  register \<^verbatim>\<open>SLV_REG3\<close> holds 0, from every state; so "the enable gate is cleared
  outside an accessor call" is preserved by both.
\<close>

theorem enable_cleared_after_call:
  "peek32 (mem (bram_write v i s)) SLV_REG3 = 0
   \<and> peek32 (mem (snd (bram_read i s))) SLV_REG3 = 0"
  by (simp add: mem_bram_write mem_bram_read peek32_write_same unat_SLV_REG3)

text \<open>
  C10. A \<^verbatim>\<open>bram_write\<close> at index \<open>i\<close> leaves the 128-bit slot of every other index
  \<open>j\<close> as it was.
\<close>

theorem bram_write_other_slot_unchanged:
  assumes "i \<noteq> j"
  shows "peek128 (mem (bram_write v i s)) (index128 BRAM_BASE j)
           = peek128 (mem s) (index128 BRAM_BASE j)"
proof -
  have "unat i \<noteq> unat j" using assms by (simp add: word_unat_eq_iff)
  then have "unat (index128 BRAM_BASE j) + 16 \<le> unat (index128 BRAM_BASE i)
      \<or> unat (index128 BRAM_BASE i) + 16 \<le> unat (index128 BRAM_BASE j)"
    by (simp add: unat_index128) arith
  then have "peek128 (write_bytes m (index128 BRAM_BASE i) (to_bytes 16 v)) (index128 BRAM_BASE j)
      = peek128 m (index128 BRAM_BASE j)" for m
    by (intro peek128_write_disjoint slot_fits)
  then show ?thesis
    by (simp add: mem_bram_write peek128_slot_enable)
qed

theorem bram_write_other_slot_unchanged_witness:
  "(0 :: 32 word) \<noteq> 1
   \<and> peek128 (mem (bram_write 5 0 \<lparr>mem = (\<lambda>x. 7), trace = []\<rparr>)) (index128 BRAM_BASE 1)
       = peek128 (mem \<lparr>mem = (\<lambda>x. 7), trace = []\<rparr>) (index128 BRAM_BASE 1)"
  using bram_write_other_slot_unchanged [of 0 1 5 "\<lparr>mem = (\<lambda>x. 7), trace = []\<rparr>"]
  by simp

end
